theory Spec2Isabelle
  imports Main "HOL-Library.Word"
begin

section \<open>Time\<close>

text \<open>
  The program reads the clock with \<^verbatim>\<open>time.Now()\<close> and compares instants.  An instant
  of \<^verbatim>\<open>time.Time\<close> is modelled as the number of nanoseconds since Go's zero instant
  (January 1, year 1, 00:00:00 UTC), a \<^verbatim>\<open>time.Duration\<close> as a number of nanoseconds.
  The clock reading is an explicit argument \<open>now\<close> of every function that reads it.
\<close>

type_synonym Time = int
type_synonym Duration = int

definition Minute :: Duration where
  "Minute = 60 * 1000000000"

definition IsZero :: "Time \<Rightarrow> bool" where
  "IsZero t = (t = 0)"

definition Add :: "Time \<Rightarrow> Duration \<Rightarrow> Time" where
  "Add t d = t + d"

definition After :: "Time \<Rightarrow> Time \<Rightarrow> bool" where
  "After t u = (t > u)"

definition Before :: "Time \<Rightarrow> Time \<Rightarrow> bool" where
  "Before t u = (t < u)"

section \<open>Token store: internal/config\<close>

record Config =
  ClientID :: string
  ClientSecret :: string
  AccessToken :: string
  RefreshToken :: string
  ExpiresAt :: Time

definition IsTokenValid :: "Time \<Rightarrow> Config \<Rightarrow> bool" where
  "IsTokenValid now c =
     (if AccessToken c = [] then False
      else if IsZero (ExpiresAt c) then True
      else Before now (ExpiresAt c))"

definition NeedsRefresh :: "Time \<Rightarrow> Config \<Rightarrow> bool" where
  "NeedsRefresh now c =
     (if RefreshToken c = [] then False
      else if IsZero (ExpiresAt c) then False
      else After (Add now (5 * Minute)) (ExpiresAt c))"

definition UpdateTokens :: "string \<Rightarrow> string \<Rightarrow> Time \<Rightarrow> Config \<Rightarrow> Config" where
  "UpdateTokens accessToken refreshToken expiresAt c =
     (let c1 = c\<lparr>AccessToken := accessToken\<rparr>;
          c2 = (if refreshToken \<noteq> [] then c1\<lparr>RefreshToken := refreshToken\<rparr> else c1)
      in c2\<lparr>ExpiresAt := expiresAt\<rparr>)"

section \<open>Authorization flow: internal/auth\<close>

record OAuthConfig =
  OAuth_ClientID :: string
  OAuth_ClientSecret :: string
  RedirectURI :: string

record AuthResult =
  Result_AccessToken :: string
  Result_RefreshToken :: string
  Result_ExpiresAt :: Time

text \<open>The token of the oauth2 library, as far as the program reads it.\<close>

record Token =
  Token_AccessToken :: string
  Token_RefreshToken :: string
  Expiry :: Time

text \<open>
  \<^verbatim>\<open>generateState\<close>: sixteen bytes from the system's random source, hex-encoded.  The
  random source is the environment's: it fails or delivers the bytes.
\<close>

definition hextable :: string where
  "hextable = ''0123456789abcdef''"

definition EncodeToString :: "8 word list \<Rightarrow> string" where
  "EncodeToString src =
     concat (map (\<lambda>v. [hextable ! (unat v div 16), hextable ! (unat v mod 16)]) src)"

definition generateState :: "(string + 8 word list) \<Rightarrow> string + string" where
  "generateState randRead =
     (case randRead of Inl err \<Rightarrow> Inl err | Inr b \<Rightarrow> Inr (EncodeToString b))"













text \<open>The decimal digits of a port number, as \<^verbatim>\<open>%d\<close> prints it.\<close>

fun Itoa :: "nat \<Rightarrow> string" where
  "Itoa n = (if n < 10 then [char_of (48 + n)] else Itoa (n div 10) @ [char_of (48 + n mod 10)])"

declare Itoa.simps [simp del]

text \<open>
  The main flow.  The environment decides what the program cannot: the random bytes, whether
  the listener binds (and on which port), whether the browser opens, and which case of the
  final \<^verbatim>\<open>select\<close> proceeds first (a value received from the result channel, an error
  received from the error channel, or the timer started with the given duration).  The
  flow's own actions are recorded in order; the deferred \<^verbatim>\<open>listener.Close()\<close> runs last
  on every path after the listener is bound.
\<close>

datatype selected = RecvResult AuthResult | RecvError string | TimerFired

record AuthCodeURL =
  url_client_id :: string
  url_redirect_uri :: string
  url_state :: string
  url_token_access_type :: string

datatype flow_action =
    Listen nat
  | ListenFailed
  | GoServe
  | OpenURL AuthCodeURL
  | Select Duration
  | ServerClose
  | ListenerClose

record flowEnv =
  randRead :: "string + 8 word list"
  netListen :: "string + nat"
  browserOpenURL :: "AuthCodeURL \<Rightarrow> string option"
  selectFirst :: "Duration \<Rightarrow> selected"

definition StartOAuthFlow ::
  "flowEnv \<Rightarrow> OAuthConfig \<Rightarrow> (string + AuthResult) \<times> flow_action list" where
  "StartOAuthFlow env config =
     (case generateState (randRead env) of
        Inl err \<Rightarrow> (Inl (''failed to generate state: '' @ err), [])
      | Inr state \<Rightarrow>
        (case netListen env of
           Inl err \<Rightarrow> (Inl (''failed to start local server: '' @ err), [ListenFailed])
         | Inr port \<Rightarrow>
           let authURL = \<lparr>url_client_id = OAuth_ClientID config,
                          url_redirect_uri = ''http://localhost:'' @ Itoa port @ ''/callback'',
                          url_state = state,
                          url_token_access_type = ''offline''\<rparr>
           in
           (case browserOpenURL env authURL of
              Some err \<Rightarrow>
                (Inl (''failed to open browser: '' @ err),
                 [Listen port, GoServe, OpenURL authURL, ListenerClose])
            | None \<Rightarrow>
              (case selectFirst env (5 * Minute) of
                 RecvResult result \<Rightarrow>
                   (Inr result,
                    [Listen port, GoServe, OpenURL authURL, Select (5 * Minute),
                     ServerClose, ListenerClose])
               | RecvError err \<Rightarrow>
                   (Inl err,
                    [Listen port, GoServe, OpenURL authURL, Select (5 * Minute),
                     ServerClose, ListenerClose])
               | TimerFired \<Rightarrow>
                   (Inl ''authentication timeout'',
                    [Listen port, GoServe, OpenURL authURL, Select (5 * Minute),
                     ServerClose, ListenerClose])))))"

text \<open>
  Whether the listener's port is bound after a sequence of the flow's actions.  Only the
  listener's own \<^verbatim>\<open>Close\<close> is counted as releasing it: \<^verbatim>\<open>server.Close()\<close> closes
  the listeners the server has registered, which depends on how far the serving goroutine
  has got.
\<close>

fun bound_after :: "bool \<Rightarrow> flow_action list \<Rightarrow> bool" where
  "bound_after b [] = b"
| "bound_after b (Listen port # as) = bound_after True as"
| "bound_after b (ListenerClose # as) = bound_after False as"
| "bound_after b (_ # as) = bound_after b as"

text \<open>\<^verbatim>\<open>auth.RefreshToken\<close>: the refresh grant at the token endpoint, an outside call.\<close>

definition auth_RefreshToken ::
  "(OAuthConfig \<Rightarrow> string \<Rightarrow> string + Token) \<Rightarrow> OAuthConfig \<Rightarrow> string \<Rightarrow> string + AuthResult" where
  "auth_RefreshToken tokenSource config refreshToken =
     (case tokenSource config refreshToken of
        Inl err \<Rightarrow> Inl (''failed to refresh token: '' @ err)
      | Inr newToken \<Rightarrow>
          Inr \<lparr>Result_AccessToken = Token_AccessToken newToken,
               Result_RefreshToken = Token_RefreshToken newToken,
               Result_ExpiresAt = Expiry newToken\<rparr>)"

section \<open>Storage client: internal/dropbox\<close>

subsection \<open>Standard base64 decoding\<close>

text \<open>
  \<^verbatim>\<open>base64.StdEncoding.DecodeString\<close> of Go's library: the alphabet of RFC 4648 with
  padding.  Carriage returns and line feeds are skipped wherever they stand; every group of
  four characters gives three bytes; the last group may end in one or two padding
  characters, giving two bytes or one; anything else (a character outside the alphabet, a
  group cut short, data after the padding) is a corrupt input.  Go strings and byte slices
  are both sequences of bytes, here lists of \<^typ>\<open>char\<close>.
\<close>

datatype base64_error = CorruptInputError

definition decodeMap :: "char \<Rightarrow> nat option" where
  "decodeMap c =
     (let n = (of_char c :: nat) in
      if 65 \<le> n \<and> n \<le> 90 then Some (n - 65)
      else if 97 \<le> n \<and> n \<le> 122 then Some (n - 71)
      else if 48 \<le> n \<and> n \<le> 57 then Some (n + 4)
      else if n = 43 then Some 62
      else if n = 47 then Some 63
      else None)"

definition padChar :: char where
  "padChar = CHR ''=''"

fun decodeQuanta :: "string \<Rightarrow> base64_error + string" where
  "decodeQuanta [] = Inr []"
| "decodeQuanta (a # b # c # d # rest) =
     (case decodeMap a of None \<Rightarrow> Inl CorruptInputError | Some x0 \<Rightarrow>
       (case decodeMap b of None \<Rightarrow> Inl CorruptInputError | Some x1 \<Rightarrow>
         (if c = padChar then
            (if d = padChar \<and> rest = [] then Inr [char_of (x0 * 4 + x1 div 16)]
             else Inl CorruptInputError)
          else
            (case decodeMap c of None \<Rightarrow> Inl CorruptInputError | Some x2 \<Rightarrow>
              (if d = padChar then
                 (if rest = []
                  then Inr [char_of (x0 * 4 + x1 div 16), char_of ((x1 mod 16) * 16 + x2 div 4)]
                  else Inl CorruptInputError)
               else
                 (case decodeMap d of None \<Rightarrow> Inl CorruptInputError | Some x3 \<Rightarrow>
                   (case decodeQuanta rest of
                      Inl err \<Rightarrow> Inl err
                    | Inr bs \<Rightarrow>
                        Inr (char_of (x0 * 4 + x1 div 16)
                             # char_of ((x1 mod 16) * 16 + x2 div 4)
                             # char_of ((x2 mod 4) * 64 + x3) # bs))))))))"
| "decodeQuanta _ = Inl CorruptInputError"

definition DecodeString :: "string \<Rightarrow> base64_error + string" where
  "DecodeString s = decodeQuanta (filter (\<lambda>c. c \<noteq> CHR 0x0A \<and> c \<noteq> CHR 0x0D) s)"

definition isBase64 :: "string \<Rightarrow> bool" where
  "isBase64 s = (case DecodeString s of Inl err \<Rightarrow> False | Inr _ \<Rightarrow> True)"

subsection \<open>The byte source\<close>

text \<open>
  \<^verbatim>\<open>bytes.Reader\<close> of Go's library: the bytes \<open>s\<close> and the reading index \<open>i\<close>.
  \<^verbatim>\<open>Read\<close> into a buffer of a given length reports end-of-file once the index has
  reached the end, and otherwise copies as many bytes as fit and advances the index; the
  bytes it returns are what the buffer holds in \<^verbatim>\<open>buffer[:n]\<close> afterwards.
\<close>

record Reader =
  s :: string
  i :: nat

datatype io_error = EOF | ReadError string

definition NewReader :: "string \<Rightarrow> Reader" where
  "NewReader b = \<lparr>s = b, i = 0\<rparr>"

definition Read :: "Reader \<Rightarrow> nat \<Rightarrow> string \<times> io_error option \<times> Reader" where
  "Read r len_b =
     (if i r \<ge> length (s r) then ([], Some EOF, r)
      else
        let n = min len_b (length (s r) - i r)
        in (take n (drop (i r) (s r)), None, r\<lparr>i := i r + n\<rparr>))"

definition remaining :: "Reader \<Rightarrow> string" where
  "remaining r = drop (i r) (s r)"

subsection \<open>The provider's file API\<close>

text \<open>
  The argument and result types of the provider SDK, with the fields this program sets or
  reads, and the SDK's constructors with their defaults.
\<close>

datatype WriteMode = Tagged string

record CommitInfo =
  Path :: string
  Mode :: WriteMode
  Autorename :: bool
  ClientModified :: "Time option"
  Mute :: bool
  StrictConflict :: bool

record UploadArg = CommitInfo +
  ContentHash :: string

record UploadSessionStartArg =
  Close :: bool

record UploadSessionCursor =
  SessionId :: string
  Offset :: "64 word"

record UploadSessionAppendArg =
  Cursor :: UploadSessionCursor
  Append_Close :: bool

record UploadSessionFinishArg =
  Finish_Cursor :: UploadSessionCursor
  Commit :: CommitInfo

record FileMetadata =
  Name :: string
  PathDisplay :: string
  Size :: "64 word"
  ServerModified :: Time
  Rev :: string

definition NewCommitInfo :: "string \<Rightarrow> CommitInfo" where
  "NewCommitInfo p =
     \<lparr>Path = p, Mode = Tagged ''add'', Autorename = False, ClientModified = None,
      Mute = False, StrictConflict = False\<rparr>"

definition NewUploadArg :: "string \<Rightarrow> UploadArg" where
  "NewUploadArg p =
     \<lparr>Path = p, Mode = Tagged ''add'', Autorename = False, ClientModified = None,
      Mute = False, StrictConflict = False, ContentHash = []\<rparr>"

definition NewUploadSessionStartArg :: UploadSessionStartArg where
  "NewUploadSessionStartArg = \<lparr>Close = False\<rparr>"

definition NewUploadSessionCursor :: "string \<Rightarrow> 64 word \<Rightarrow> UploadSessionCursor" where
  "NewUploadSessionCursor sessionId offset = \<lparr>SessionId = sessionId, Offset = offset\<rparr>"

definition NewUploadSessionAppendArg :: "UploadSessionCursor \<Rightarrow> UploadSessionAppendArg" where
  "NewUploadSessionAppendArg cursor = \<lparr>Cursor = cursor, Append_Close = False\<rparr>"

definition NewUploadSessionFinishArg ::
  "UploadSessionCursor \<Rightarrow> CommitInfo \<Rightarrow> UploadSessionFinishArg" where
  "NewUploadSessionFinishArg cursor commit = \<lparr>Finish_Cursor = cursor, Commit = commit\<rparr>"

text \<open>
  The calls the program makes on the provider's file client, each with its argument and the
  bytes of its body.  The client itself is outside the program: it is a record of reply
  functions, each given the calls made so far and the call's arguments, so that a reply may
  depend on everything that went before.
\<close>

datatype call =
    CallUploadSessionStart UploadSessionStartArg string
  | CallUploadSessionAppendV2 UploadSessionAppendArg string
  | CallUploadSessionFinish UploadSessionFinishArg
  | CallUpload UploadArg string

record filesClient =
  UploadSessionStart :: "call list \<Rightarrow> UploadSessionStartArg \<Rightarrow> string \<Rightarrow> string + string"
  UploadSessionAppendV2 :: "call list \<Rightarrow> UploadSessionAppendArg \<Rightarrow> string \<Rightarrow> string option"
  UploadSessionFinish :: "call list \<Rightarrow> UploadSessionFinishArg \<Rightarrow> string + FileMetadata"
  Upload_direct :: "call list \<Rightarrow> UploadArg \<Rightarrow> string \<Rightarrow> string + FileMetadata"

subsection \<open>Chunked upload\<close>

definition chunkSize :: nat where
  "chunkSize = 4 * 1024 * 1024"

function uploadLarge_loop ::
  "filesClient \<Rightarrow> string \<Rightarrow> Reader \<Rightarrow> 64 word \<Rightarrow> call list \<Rightarrow> (string + 64 word) \<times> call list" where
  "uploadLarge_loop fc sessionId reader offset tr =
     (case Read reader chunkSize of (chunk, err, reader') \<Rightarrow>
        let n = length chunk;
            appendArg = NewUploadSessionAppendArg (NewUploadSessionCursor sessionId offset);
            appended = (if n > 0 then UploadSessionAppendV2 fc tr appendArg chunk else None);
            tr' = (if n > 0 then tr @ [CallUploadSessionAppendV2 appendArg chunk] else tr)
        in
        (case appended of
           Some e \<Rightarrow> (Inl (''failed to append chunk: '' @ e), tr')
         | None \<Rightarrow>
             let offset' = (if n > 0 then offset + of_nat n else offset) in
             (case err of
                Some EOF \<Rightarrow> (Inr offset', tr')
              | Some (ReadError e) \<Rightarrow> (Inl (''failed to read chunk: '' @ e), tr')
              | None \<Rightarrow> uploadLarge_loop fc sessionId reader' offset' tr')))"
  by pat_completeness auto
termination
proof (relation "measure (\<lambda>(fc, sessionId, reader, offset, tr). length (s reader) - i reader)")
  show "wf (measure (\<lambda>(fc, sessionId, reader, offset, tr). length (s reader) - i reader))"
    by simp
next
  fix fc :: filesClient and sessionId :: string and reader :: Reader and offset :: "64 word"
    and tr :: "call list" and x chunk y err reader' n appendArg appended tr' offset'
  assume "(chunk, y) = Read reader chunkSize" and "(err, reader') = y" and "err = None"
  then have r: "Read reader chunkSize = (chunk, None, reader')"
    by simp
  then have "i reader < length (s reader)"
    by (auto simp: Read_def split: if_splits)
  moreover from r have "i reader' = i reader + min chunkSize (length (s reader) - i reader)"
    and "s reader' = s reader"
    by (auto simp: Read_def Let_def split: if_splits)
  moreover have "0 < chunkSize"
    by (simp add: chunkSize_def)
  ultimately show "((fc, sessionId, reader', offset', tr'), (fc, sessionId, reader, offset, tr))
      \<in> measure (\<lambda>(fc, sessionId, reader, offset, tr). length (s reader) - i reader)"
    by simp
qed

declare uploadLarge_loop.simps [simp del]

definition uploadLarge ::
  "filesClient \<Rightarrow> CommitInfo \<Rightarrow> Reader \<Rightarrow> (string + FileMetadata) \<times> call list" where
  "uploadLarge fc commitInfo reader =
     (let sessionArg = NewUploadSessionStartArg\<lparr>Close := False\<rparr>;
          tr0 = [CallUploadSessionStart sessionArg []]
      in
      case UploadSessionStart fc [] sessionArg [] of
        Inl err \<Rightarrow> (Inl (''failed to start upload session: '' @ err), tr0)
      | Inr sessionId \<Rightarrow>
          (case uploadLarge_loop fc sessionId reader 0 tr0 of
             (Inl err, tr) \<Rightarrow> (Inl err, tr)
           | (Inr offset, tr) \<Rightarrow>
               let cursor = NewUploadSessionCursor sessionId offset;
                   finishArg = NewUploadSessionFinishArg cursor commitInfo
               in (UploadSessionFinish fc tr finishArg, tr @ [CallUploadSessionFinish finishArg])))"

subsection \<open>Upload\<close>

definition uploadData :: "string \<Rightarrow> string" where
  "uploadData content =
     (if CHR 0x0A \<in> set content \<or> \<not> isBase64 content then content
      else (case DecodeString content of Inl err \<Rightarrow> content | Inr decoded \<Rightarrow> decoded))"

definition uploadCommitInfo :: "Time \<Rightarrow> string \<Rightarrow> string \<Rightarrow> CommitInfo" where
  "uploadCommitInfo now path mode =
     (let commitInfo = NewCommitInfo path;
          commitInfo = (if mode = ''overwrite'' then commitInfo\<lparr>Mode := Tagged ''overwrite''\<rparr>
                        else commitInfo\<lparr>Mode := Tagged ''add''\<rparr>);
          commitInfo = commitInfo\<lparr>Autorename := True\<rparr>
      in commitInfo\<lparr>ClientModified := Some now\<rparr>)"

definition Upload ::
  "filesClient \<Rightarrow> Time \<Rightarrow> string \<Rightarrow> string \<Rightarrow> string \<Rightarrow> (string + FileMetadata) \<times> call list" where
  "Upload fc now path content mode =
     (let data = uploadData content;
          commitInfo = uploadCommitInfo now path mode;
          reader = NewReader data
      in
      if length data > 150 * 1024 * 1024 then uploadLarge fc commitInfo reader
      else
        let arg = NewUploadArg path;
            arg = arg\<lparr>Mode := Mode commitInfo\<rparr>;
            arg = arg\<lparr>Autorename := Autorename commitInfo\<rparr>;
            arg = arg\<lparr>ClientModified := ClientModified commitInfo\<rparr>
        in (Upload_direct fc [] arg (remaining reader), [CallUpload arg (remaining reader)]))"

subsection \<open>Client construction and the upload handler\<close>

text \<open>
  \<^verbatim>\<open>NewClient\<close> refreshes the stored tokens when they are about to expire.  The token
  endpoint and the saving of the configuration file are outside calls, given as reply
  functions; the configuration is mutated in place, so it is returned on every path.
\<close>

record clientEnv =
  clock :: Time
  tokenSource :: "OAuthConfig \<Rightarrow> string \<Rightarrow> string + Token"
  Save :: "Config \<Rightarrow> string option"
  files_New :: "string \<Rightarrow> filesClient"

definition NewClient :: "clientEnv \<Rightarrow> Config \<Rightarrow> (string + filesClient) \<times> Config" where
  "NewClient env cfg =
     (let refreshed =
        (if NeedsRefresh (clock env) cfg \<and> RefreshToken cfg \<noteq> [] then
           let authConfig = \<lparr>OAuth_ClientID = ClientID cfg,
                             OAuth_ClientSecret = ClientSecret cfg, RedirectURI = []\<rparr>
           in
           (case auth_RefreshToken (tokenSource env) authConfig (RefreshToken cfg) of
              Inl err \<Rightarrow> (Some (''failed to refresh token: '' @ err), cfg)
            | Inr result \<Rightarrow>
                let cfg' = UpdateTokens (Result_AccessToken result) (Result_RefreshToken result)
                             (Result_ExpiresAt result) cfg
                in
                (case Save env cfg' of
                   Some err \<Rightarrow> (Some (''failed to save updated config: '' @ err), cfg')
                 | None \<Rightarrow> (None, cfg')))
         else (None, cfg))
      in
      case refreshed of
        (Some err, cfg') \<Rightarrow> (Inl err, cfg')
      | (None, cfg') \<Rightarrow>
          if \<not> IsTokenValid (clock env) cfg' then (Inl ''invalid or expired token'', cfg')
          else (Inr (files_New env (AccessToken cfg')), cfg'))"

text \<open>
  \<^verbatim>\<open>HandleUpload\<close>, from the decoded parameters on (the JSON decoding of the parameter
  bag comes before and is an outside call: it fails or delivers the three strings).
\<close>

record UploadParams =
  args_Path :: string
  args_Content :: string
  args_Mode :: string

definition HandleUpload ::
  "clientEnv \<Rightarrow> Config \<Rightarrow> (string + UploadParams)
     \<Rightarrow> (string + FileMetadata) \<times> call list \<times> Config" where
  "HandleUpload env cfg unmarshalled =
     (case unmarshalled of
        Inl err \<Rightarrow> (Inl (''invalid parameters: '' @ err), [], cfg)
      | Inr args \<Rightarrow>
          if args_Path args = [] then (Inl ''path parameter is required'', [], cfg)
          else if args_Content args = [] then (Inl ''content parameter is required'', [], cfg)
          else
            let args = (if args_Mode args = [] then args\<lparr>args_Mode := ''add''\<rparr> else args) in
            (case NewClient env cfg of
               (Inl err, cfg') \<Rightarrow> (Inl err, [], cfg')
             | (Inr client, cfg') \<Rightarrow>
                 (case Upload client (clock env) (args_Path args) (args_Content args)
                         (args_Mode args) of
                    (Inl err, tr) \<Rightarrow> (Inl err, tr, cfg')
                  | (Inr metadata, tr) \<Rightarrow> (Inr metadata, tr, cfg'))))"

text \<open>The commit information a call carries, if it carries one.\<close>

fun call_commit :: "call \<Rightarrow> CommitInfo option" where
  "call_commit (CallUploadSessionFinish a) = Some (Commit a)"
| "call_commit (CallUpload a _) = Some (CommitInfo.truncate a)"
| "call_commit _ = None"

subsection \<open>Notions for the properties of the chunked upload\<close>

text \<open>The bytes the next \<^verbatim>\<open>Read\<close> of a reader delivers into a buffer of the chunk size.\<close>

definition next_chunk :: "Reader \<Rightarrow> string" where
  "next_chunk rd = take chunkSize (drop (i rd) (s rd))"

text \<open>The append call the loop makes for a chunk at an offset of a session.\<close>

definition append_call :: "string \<Rightarrow> 64 word \<Rightarrow> string \<Rightarrow> call" where
  "append_call sid off chunk =
     CallUploadSessionAppendV2 (NewUploadSessionAppendArg (NewUploadSessionCursor sid off)) chunk"

text \<open>
  For stating the properties of a whole upload: the number of chunks of a source of \<open>N\<close>
  bytes (\<open>N\<close> divided by the chunk size, rounded up) and the \<open>k\<close>-th chunk of the source.
\<close>

definition chunk_count :: "nat \<Rightarrow> nat" where
  "chunk_count N = (N + chunkSize - 1) div chunkSize"

definition chunk_at :: "nat \<Rightarrow> string \<Rightarrow> string" where
  "chunk_at k data = take chunkSize (drop (k * chunkSize) data)"

fun is_append :: "call \<Rightarrow> bool" where
  "is_append (CallUploadSessionAppendV2 _ _) = True"
| "is_append _ = False"

text \<open>The argument of the single-request upload, as \<^verbatim>\<open>Upload\<close> builds it.\<close>

definition direct_arg :: "Time \<Rightarrow> string \<Rightarrow> string \<Rightarrow> UploadArg" where
  "direct_arg now path mode =
     \<lparr>Path = path, Mode = Mode (uploadCommitInfo now path mode),
      Autorename = Autorename (uploadCommitInfo now path mode),
      ClientModified = ClientModified (uploadCommitInfo now path mode),
      Mute = False, StrictConflict = False, ContentHash = []\<rparr>"

section \<open>Token store: the refresh predicate and the token update\<close>

text \<open>
  Claim C5, as the code has it.  A credential needs a refresh exactly when its refresh token
  is non-empty, its expiry is set (it is not the zero instant) and the current time plus
  five minutes is strictly after the expiry.  In particular, with a non-empty refresh token
  and a set expiry: an expiry five minutes or more ahead of the clock gives false, and an
  expiry less than five minutes ahead, or already past, gives true.
\<close>

theorem NeedsRefresh_iff:
  "(NeedsRefresh now c \<longleftrightarrow>
      RefreshToken c \<noteq> [] \<and> \<not> IsZero (ExpiresAt c) \<and> now + 5 * Minute > ExpiresAt c)
   \<and> (RefreshToken c \<noteq> [] \<and> \<not> IsZero (ExpiresAt c) \<and> ExpiresAt c \<ge> now + 5 * Minute
        \<longrightarrow> \<not> NeedsRefresh now c)
   \<and> (RefreshToken c \<noteq> [] \<and> \<not> IsZero (ExpiresAt c) \<and> ExpiresAt c < now + 5 * Minute
        \<longrightarrow> NeedsRefresh now c)"
  by (simp add: NeedsRefresh_def After_def Add_def)

theorem NeedsRefresh_iff_witness:
  "NeedsRefresh 1000000000000
      \<lparr>ClientID = ''id'', ClientSecret = ''secret'', AccessToken = ''at'',
       RefreshToken = ''rt'', ExpiresAt = 1000000000000 + 4 * Minute\<rparr>
   \<and> \<not> NeedsRefresh 1000000000000
      \<lparr>ClientID = ''id'', ClientSecret = ''secret'', AccessToken = ''at'',
       RefreshToken = ''rt'', ExpiresAt = 1000000000000 + 6 * Minute\<rparr>
   \<and> NeedsRefresh 1000000000000
      \<lparr>ClientID = ''id'', ClientSecret = ''secret'', AccessToken = ''at'',
       RefreshToken = ''rt'', ExpiresAt = 1000000000000 - 1 * Minute\<rparr>"
proof -
  let ?c4 = "\<lparr>ClientID = ''id'', ClientSecret = ''secret'', AccessToken = ''at'',
       RefreshToken = ''rt'', ExpiresAt = 1000000000000 + 4 * Minute\<rparr>"
  let ?c6 = "\<lparr>ClientID = ''id'', ClientSecret = ''secret'', AccessToken = ''at'',
       RefreshToken = ''rt'', ExpiresAt = 1000000000000 + 6 * Minute\<rparr>"
  let ?cp = "\<lparr>ClientID = ''id'', ClientSecret = ''secret'', AccessToken = ''at'',
       RefreshToken = ''rt'', ExpiresAt = 1000000000000 - 1 * Minute\<rparr>"
  have a: "RefreshToken ?c4 \<noteq> [] \<and> \<not> IsZero (ExpiresAt ?c4)
      \<and> ExpiresAt ?c4 < 1000000000000 + 5 * Minute"
    by (simp add: IsZero_def Minute_def)
  have b: "RefreshToken ?c6 \<noteq> [] \<and> \<not> IsZero (ExpiresAt ?c6)
      \<and> ExpiresAt ?c6 \<ge> 1000000000000 + 5 * Minute"
    by (simp add: IsZero_def Minute_def)
  have p: "RefreshToken ?cp \<noteq> [] \<and> \<not> IsZero (ExpiresAt ?cp)
      \<and> ExpiresAt ?cp < 1000000000000 + 5 * Minute"
    by (simp add: IsZero_def Minute_def)
  from a NeedsRefresh_iff [of 1000000000000 ?c4] have "NeedsRefresh 1000000000000 ?c4"
    by blast
  moreover from b NeedsRefresh_iff [of 1000000000000 ?c6]
  have "\<not> NeedsRefresh 1000000000000 ?c6"
    by blast
  moreover from p NeedsRefresh_iff [of 1000000000000 ?cp] have "NeedsRefresh 1000000000000 ?cp"
    by blast
  ultimately show ?thesis by blast
qed

text \<open>
  The claim as the specification words it takes an expiry ``within 5 minutes'' to need a
  refresh.  A credential that expires exactly five minutes after the clock reading is
  within five minutes and does not need one: the comparison is strict.
\<close>

theorem NeedsRefresh_boundary_counterexample:
  "RefreshToken
      \<lparr>ClientID = ''id'', ClientSecret = ''secret'', AccessToken = ''at'',
       RefreshToken = ''rt'', ExpiresAt = 1000000000000 + 5 * Minute\<rparr> \<noteq> []
   \<and> \<not> IsZero (ExpiresAt
      \<lparr>ClientID = ''id'', ClientSecret = ''secret'', AccessToken = ''at'',
       RefreshToken = ''rt'', ExpiresAt = 1000000000000 + 5 * Minute\<rparr>)
   \<and> ExpiresAt
      \<lparr>ClientID = ''id'', ClientSecret = ''secret'', AccessToken = ''at'',
       RefreshToken = ''rt'', ExpiresAt = 1000000000000 + 5 * Minute\<rparr>
       - 1000000000000 \<le> 5 * Minute
   \<and> \<not> NeedsRefresh 1000000000000
      \<lparr>ClientID = ''id'', ClientSecret = ''secret'', AccessToken = ''at'',
       RefreshToken = ''rt'', ExpiresAt = 1000000000000 + 5 * Minute\<rparr>"
  by (simp add: NeedsRefresh_def IsZero_def After_def Add_def Minute_def)

text \<open>
  Claim C8.  A token update overwrites the access token and the expiry with the new values,
  replaces the refresh token when the new one is non-empty and keeps the stored one when
  the new one is empty, and leaves the client id and the client secret as they were.  The
  refresh in \<^verbatim>\<open>NewClient\<close> changes the stored configuration by exactly this update,
  with the token the token endpoint returned.
\<close>

theorem UpdateTokens_frame:
  "AccessToken (UpdateTokens a r e c) = a
   \<and> ExpiresAt (UpdateTokens a r e c) = e
   \<and> RefreshToken (UpdateTokens a r e c) = (if r \<noteq> [] then r else RefreshToken c)
   \<and> ClientID (UpdateTokens a r e c) = ClientID c
   \<and> ClientSecret (UpdateTokens a r e c) = ClientSecret c
   \<and> (NeedsRefresh (clock env) c \<and>
        tokenSource env \<lparr>OAuth_ClientID = ClientID c, OAuth_ClientSecret = ClientSecret c,
                         RedirectURI = []\<rparr> (RefreshToken c) = Inr token
      \<longrightarrow> snd (NewClient env c) =
            UpdateTokens (Token_AccessToken token) (Token_RefreshToken token) (Expiry token) c)"
proof -
  have "RefreshToken c \<noteq> []" if "NeedsRefresh (clock env) c"
    using that by (auto simp: NeedsRefresh_def split: if_splits)
  then show ?thesis
    by (auto simp: UpdateTokens_def NewClient_def auth_RefreshToken_def Let_def
        split: option.splits)
qed

theorem UpdateTokens_frame_witness:
  "snd (NewClient
      \<lparr>clock = 1000,
       tokenSource = (\<lambda>c r. Inr \<lparr>Token_AccessToken = ''at2'', Token_RefreshToken = [], Expiry = 5000000000000\<rparr>),
       Save = (\<lambda>c. None),
       files_New = (\<lambda>token.
           \<lparr>UploadSessionStart = (\<lambda>h a b. Inr ''sid''), UploadSessionAppendV2 = (\<lambda>h a b. None),
            UploadSessionFinish = (\<lambda>h a. Inl ''no reply''),
            Upload_direct = (\<lambda>h a b. Inl ''no reply'')\<rparr>)\<rparr>
      \<lparr>ClientID = ''id'', ClientSecret = ''secret'', AccessToken = ''at'',
       RefreshToken = ''rt'', ExpiresAt = 2000\<rparr>)
    = \<lparr>ClientID = ''id'', ClientSecret = ''secret'', AccessToken = ''at2'',
       RefreshToken = ''rt'', ExpiresAt = 5000000000000\<rparr>"
proof -
  let ?tok = "\<lparr>Token_AccessToken = ''at2'', Token_RefreshToken = [], Expiry = 5000000000000\<rparr>"
  let ?env = "\<lparr>clock = 1000, tokenSource = (\<lambda>c r. Inr ?tok), Save = (\<lambda>c. None),
       files_New = (\<lambda>token.
           \<lparr>UploadSessionStart = (\<lambda>h a b. Inr ''sid''), UploadSessionAppendV2 = (\<lambda>h a b. None),
            UploadSessionFinish = (\<lambda>h a. Inl ''no reply''),
            Upload_direct = (\<lambda>h a b. Inl ''no reply'')\<rparr>)\<rparr>"
  let ?c = "\<lparr>ClientID = ''id'', ClientSecret = ''secret'', AccessToken = ''at'',
       RefreshToken = ''rt'', ExpiresAt = 2000\<rparr>"
  have a: "NeedsRefresh (clock ?env) ?c"
    by (simp add: NeedsRefresh_def IsZero_def After_def Add_def Minute_def)
  have b: "tokenSource ?env \<lparr>OAuth_ClientID = ClientID ?c, OAuth_ClientSecret = ClientSecret ?c,
                         RedirectURI = []\<rparr> (RefreshToken ?c) = Inr ?tok"
    by simp
  from a b UpdateTokens_frame [of "''at2''" "[]" 5000000000000 ?c ?env ?tok]
  have "snd (NewClient ?env ?c) = UpdateTokens ''at2'' [] 5000000000000 ?c"
    by simp
  then show ?thesis
    by (simp add: UpdateTokens_def)
qed

section \<open>Authorization flow: the callback handler and the wait\<close>







text \<open>
  The listener's port is released on every path of the flow, whatever the environment does.
\<close>

lemma StartOAuthFlow_listener_released: "\<not> bound_after False (snd (StartOAuthFlow env config))"
  by (simp add: StartOAuthFlow_def Let_def split: sum.splits option.splits selected.splits)

text \<open>
  Claim C3.  Once the listener is bound and the browser has been opened, the flow waits in
  one \<^verbatim>\<open>select\<close> with a timer of five minutes and returns according to the case that
  proceeds first: the result received, the error received, or the error
  \<^verbatim>\<open>authentication timeout\<close>.  On each of the three paths the flow closes the server
  and then the listener after the wait and before it returns, so the port is not bound
  afterwards.  Which case proceeds first is the Go runtime's choice and is the
  environment's \<open>selectFirst\<close> here; the three cases exclude each other because they are
  the three constructors of \<^typ>\<open>selected\<close>.
\<close>

theorem StartOAuthFlow_wait:
  assumes "randRead env = Inr b" and "netListen env = Inr port"
    and "\<forall>u. browserOpenURL env u = None"
  shows "(\<exists>u. snd (StartOAuthFlow env config) =
            [Listen port, GoServe, OpenURL u, Select (5 * Minute), ServerClose, ListenerClose])
         \<and> \<not> bound_after False (snd (StartOAuthFlow env config))
         \<and> (\<forall>result. selectFirst env (5 * Minute) = RecvResult result \<longrightarrow>
                fst (StartOAuthFlow env config) = Inr result)
         \<and> (\<forall>err. selectFirst env (5 * Minute) = RecvError err \<longrightarrow>
                fst (StartOAuthFlow env config) = Inl err)
         \<and> (selectFirst env (5 * Minute) = TimerFired \<longrightarrow>
                fst (StartOAuthFlow env config) = Inl ''authentication timeout'')"
  using assms
  by (simp add: StartOAuthFlow_def generateState_def Let_def split: selected.splits)

theorem StartOAuthFlow_wait_witness:
  "StartOAuthFlow
      \<lparr>randRead = Inr [0x5f, 0x1c], netListen = Inr 8080,
       browserOpenURL = (\<lambda>u. None), selectFirst = (\<lambda>d. TimerFired)\<rparr>
      \<lparr>OAuth_ClientID = ''abc'', OAuth_ClientSecret = ''xyz'', RedirectURI = []\<rparr>
    = (Inl ''authentication timeout'',
       [Listen 8080, GoServe,
        OpenURL \<lparr>url_client_id = ''abc'', url_redirect_uri = ''http://localhost:8080/callback'',
                 url_state = ''5f1c'', url_token_access_type = ''offline''\<rparr>,
        Select (5 * Minute), ServerClose, ListenerClose])"
proof -
  let ?env = "\<lparr>randRead = Inr [0x5f, 0x1c], netListen = Inr 8080,
       browserOpenURL = (\<lambda>u. None), selectFirst = (\<lambda>d. TimerFired)\<rparr>"
  let ?cfg = "\<lparr>OAuth_ClientID = ''abc'', OAuth_ClientSecret = ''xyz'', RedirectURI = []\<rparr>"
  have a: "randRead ?env = Inr [0x5f, 0x1c]" by simp
  have b: "netListen ?env = Inr 8080" by simp
  have c: "\<forall>u. browserOpenURL ?env u = None" by simp
  have t: "selectFirst ?env (5 * Minute) = TimerFired" by simp
  from StartOAuthFlow_wait [OF a b c, of ?cfg] t
  have r: "fst (StartOAuthFlow ?env ?cfg) = Inl ''authentication timeout''"
    by blast
  have d: "char_of (56::nat) = CHR ''8''" "char_of (48::nat) = CHR ''0''"
    by code_simp+
  have s: "snd (StartOAuthFlow ?env ?cfg) = [Listen 8080, GoServe,
        OpenURL \<lparr>url_client_id = ''abc'', url_redirect_uri = ''http://localhost:8080/callback'',
                 url_state = ''5f1c'', url_token_access_type = ''offline''\<rparr>,
        Select (5 * Minute), ServerClose, ListenerClose]"
    by (simp add: StartOAuthFlow_def generateState_def EncodeToString_def hextable_def
        Itoa.simps [of 8080] Itoa.simps [of 808] Itoa.simps [of 80] Itoa.simps [of 8] d)
  from r s show ?thesis by (simp add: prod_eq_iff)
qed

section \<open>Chunked upload: offsets, order and failure\<close>

lemma chunkSize_pos: "0 < chunkSize"
  by (simp add: chunkSize_def)

lemma next_chunk_length:
  "length (next_chunk rd) = min chunkSize (length (s rd) - i rd)"
  by (simp add: next_chunk_def min.commute)

lemma next_chunk_nonempty: "i rd < length (s rd) \<Longrightarrow> 0 < length (next_chunk rd)"
  using chunkSize_pos by (simp add: next_chunk_length)

lemma Read_eof: "length (s rd) \<le> i rd \<Longrightarrow> Read rd chunkSize = ([], Some EOF, rd)"
  by (simp add: Read_def)

lemma Read_chunk:
  assumes "i rd < length (s rd)"
  shows "Read rd chunkSize = (next_chunk rd, None, rd\<lparr>i := i rd + length (next_chunk rd)\<rparr>)"
proof -
  have "take (min chunkSize (length (s rd) - i rd)) (drop (i rd) (s rd)) = next_chunk rd"
    by (simp add: next_chunk_def min_def)
  with assms show ?thesis
    by (simp add: Read_def Let_def next_chunk_length)
qed

lemma loop_eof:
  assumes "length (s rd) \<le> i rd"
  shows "uploadLarge_loop fc sid rd off tr = (Inr off, tr)"
  by (subst uploadLarge_loop.simps) (simp add: Read_eof [OF assms])

lemma loop_read_fail:
  assumes "i rd < length (s rd)"
    and "UploadSessionAppendV2 fc tr (NewUploadSessionAppendArg (NewUploadSessionCursor sid off))
           (next_chunk rd) = Some e"
  shows "uploadLarge_loop fc sid rd off tr =
           (Inl (''failed to append chunk: '' @ e), tr @ [append_call sid off (next_chunk rd)])"
  using assms(2) next_chunk_nonempty [OF assms(1)]
  by (subst uploadLarge_loop.simps) (simp add: Read_chunk [OF assms(1)] Let_def append_call_def)

lemma loop_read_ok:
  assumes "i rd < length (s rd)"
    and "UploadSessionAppendV2 fc tr (NewUploadSessionAppendArg (NewUploadSessionCursor sid off))
           (next_chunk rd) = None"
  shows "uploadLarge_loop fc sid rd off tr =
           uploadLarge_loop fc sid (rd\<lparr>i := i rd + length (next_chunk rd)\<rparr>)
             (off + of_nat (length (next_chunk rd)))
             (tr @ [append_call sid off (next_chunk rd)])"
  using assms(2) next_chunk_nonempty [OF assms(1)]
  by (subst uploadLarge_loop.simps) (simp add: Read_chunk [OF assms(1)] Let_def append_call_def)

lemma chunk_count_less_iff: "j < chunk_count N \<longleftrightarrow> j * chunkSize < N"
proof -
  have "j < chunk_count N \<longleftrightarrow> Suc j \<le> (N + chunkSize - 1) div chunkSize"
    by (simp add: chunk_count_def Suc_le_eq)
  also have "\<dots> \<longleftrightarrow> Suc j * chunkSize \<le> N + chunkSize - 1"
    using chunkSize_pos by (simp add: less_eq_div_iff_mult_less_eq)
  also have "\<dots> \<longleftrightarrow> j * chunkSize < N"
    using chunkSize_pos by auto
  finally show ?thesis .
qed

lemma loop_all_ok:
  assumes ok: "\<forall>h a b. UploadSessionAppendV2 fc h a b = None"
  shows "i rd = min (j * chunkSize) (length (s rd)) \<Longrightarrow> off = of_nat (i rd) \<Longrightarrow>
     uploadLarge_loop fc sid rd off tr =
       (Inr (of_nat (length (s rd))),
        tr @ map (\<lambda>k. append_call sid (of_nat (k * chunkSize)) (chunk_at k (s rd)))
               [j..<chunk_count (length (s rd))])"
proof (induction "chunk_count (length (s rd)) - j" arbitrary: j rd off tr)
  case 0
  then have "\<not> j < chunk_count (length (s rd))" by simp
  then have ge: "length (s rd) \<le> j * chunkSize"
    by (simp add: chunk_count_less_iff)
  with "0.prems" have "i rd = length (s rd)" by simp
  with "0.prems" "0.hyps" show ?case
    by (simp add: loop_eof)
next
  case (Suc n)
  then have lt: "j < chunk_count (length (s rd))" by simp
  then have jl: "j * chunkSize < length (s rd)"
    by (simp add: chunk_count_less_iff)
  with Suc.prems have ird: "i rd = j * chunkSize" by simp
  let ?c = "next_chunk rd"
  let ?rd = "rd\<lparr>i := i rd + length ?c\<rparr>"
  have c: "?c = chunk_at j (s rd)"
    by (simp add: next_chunk_def chunk_at_def ird)
  have len: "i rd + length ?c = min (Suc j * chunkSize) (length (s rd))"
  proof -
    have "Suc j * chunkSize = j * chunkSize + chunkSize" by simp
    then show ?thesis
      using jl unfolding next_chunk_length ird by arith
  qed
  have step: "uploadLarge_loop fc sid rd off tr =
      uploadLarge_loop fc sid ?rd (off + of_nat (length ?c)) (tr @ [append_call sid off ?c])"
    using jl ok by (intro loop_read_ok) (simp_all add: ird)
  have n: "n = chunk_count (length (s ?rd)) - Suc j"
    using Suc.hyps(2) by simp
  have "uploadLarge_loop fc sid ?rd (off + of_nat (length ?c)) (tr @ [append_call sid off ?c]) =
       (Inr (of_nat (length (s ?rd))),
        (tr @ [append_call sid off ?c]) @
          map (\<lambda>k. append_call sid (of_nat (k * chunkSize)) (chunk_at k (s ?rd)))
               [Suc j..<chunk_count (length (s ?rd))])"
  proof (rule Suc.hyps(1) [OF n])
    show "i ?rd = min (Suc j * chunkSize) (length (s ?rd))"
      using len by simp
    show "off + of_nat (length ?c) = of_nat (i ?rd)"
      using Suc.prems(2) by simp
  qed
  with step lt show ?case
    by (simp add: upt_conv_Cons c Suc.prems(2) ird)
qed

lemma concat_chunks: "concat (map (\<lambda>k. chunk_at k data) [0..<n]) = take (n * chunkSize) data"
proof (induction n)
  case 0
  then show ?case by simp
next
  case (Suc n)
  have "take (n * chunkSize + chunkSize) data =
      take (n * chunkSize) data @ take chunkSize (drop (n * chunkSize) data)"
    by (rule take_add)
  with Suc show ?case
    by (simp add: chunk_at_def add.commute)
qed

lemma concat_all_chunks:
  "concat (map (\<lambda>k. chunk_at k data) [0..<chunk_count (length data)]) = data"
proof -
  have "length data \<le> chunk_count (length data) * chunkSize"
    using chunk_count_less_iff [of "chunk_count (length data)" "length data"] by simp
  then show ?thesis by (simp add: concat_chunks)
qed

lemma chunk_full: "k < chunk_count (length data) \<Longrightarrow> m < k \<Longrightarrow> length (chunk_at m data) = chunkSize"
proof -
  assume "k < chunk_count (length data)" and "m < k"
  then have "k * chunkSize < length data" and "Suc m \<le> k"
    by (simp_all add: chunk_count_less_iff)
  then have "Suc m * chunkSize \<le> k * chunkSize"
    using mult_le_mono1 by blast
  with \<open>k * chunkSize < length data\<close> show ?thesis
    by (simp add: chunk_at_def)
qed

lemma sum_chunks_before:
  assumes "k < chunk_count (length data)"
  shows "sum_list (map (\<lambda>m. length (chunk_at m data)) [0..<k]) = k * chunkSize"
proof -
  have "map (\<lambda>m. length (chunk_at m data)) [0..<k] = map (\<lambda>m. chunkSize) [0..<k]"
    using chunk_full [OF assms] by (intro map_cong) simp_all
  then have "sum_list (map (\<lambda>m. length (chunk_at m data)) [0..<k]) =
      sum_list (map (\<lambda>m. chunkSize) [0..<k])"
    by (rule arg_cong)
  also have "\<dots> = k * chunkSize"
    by (simp add: sum_list_triv)
  finally show ?thesis .
qed

lemma sum_all_chunks:
  "sum_list (map (\<lambda>m. length (chunk_at m data)) [0..<chunk_count (length data)]) = length data"
proof -
  have "sum_list (map (\<lambda>m. length (chunk_at m data)) [0..<chunk_count (length data)])
      = length (concat (map (\<lambda>k. chunk_at k data) [0..<chunk_count (length data)]))"
    by (simp add: length_concat comp_def)
  then show ?thesis by (simp add: concat_all_chunks)
qed

lemma unat_offset: "n < 2 ^ 64 \<Longrightarrow> unat (of_nat n :: 64 word) = n"
  by (simp add: unat_of_nat)

lemma uploadLarge_all_ok:
  assumes start: "UploadSessionStart fc [] \<lparr>Close = False\<rparr> [] = Inr sid"
    and ok: "\<forall>h a b. UploadSessionAppendV2 fc h a b = None"
  shows "uploadLarge fc ci (NewReader data) =
     (UploadSessionFinish fc
        (CallUploadSessionStart \<lparr>Close = False\<rparr> [] #
           map (\<lambda>k. append_call sid (of_nat (k * chunkSize)) (chunk_at k data))
             [0..<chunk_count (length data)])
        (NewUploadSessionFinishArg (NewUploadSessionCursor sid (of_nat (length data))) ci),
      CallUploadSessionStart \<lparr>Close = False\<rparr> [] #
        map (\<lambda>k. append_call sid (of_nat (k * chunkSize)) (chunk_at k data))
          [0..<chunk_count (length data)] @
        [CallUploadSessionFinish
           (NewUploadSessionFinishArg (NewUploadSessionCursor sid (of_nat (length data))) ci)])"
proof -
  have "uploadLarge_loop fc sid (NewReader data) 0 [CallUploadSessionStart \<lparr>Close = False\<rparr> []] =
       (Inr (of_nat (length (s (NewReader data)))),
        [CallUploadSessionStart \<lparr>Close = False\<rparr> []] @
          map (\<lambda>k. append_call sid (of_nat (k * chunkSize)) (chunk_at k (s (NewReader data))))
               [0..<chunk_count (length (s (NewReader data)))])"
    by (rule loop_all_ok [OF ok, where j = 0]) (simp_all add: NewReader_def)
  then show ?thesis
    using start by (simp add: uploadLarge_def NewUploadSessionStartArg_def NewReader_def Let_def)
qed

text \<open>
  Claim C1.  When the session starts and every append succeeds, a source of \<open>N\<close> bytes
  (\<open>N\<close> below \<open>2 ^ 64\<close>, the range of the offset) is uploaded as: the start call, then
  one append per chunk of 4 MiB in source order, the \<open>k\<close>-th (from 0) at offset
  \<open>k * chunkSize\<close>, which is the sum of the lengths of the chunks appended before it, then
  the finish call at offset \<open>N\<close>.  The chunks put together are the source, and their number
  is \<open>N\<close> divided by the chunk size, rounded up: none for \<open>N = 0\<close>, one for
  \<open>0 < N \<le> chunkSize\<close>, and \<open>k + 1\<close> for \<open>N = k * chunkSize + r\<close> with
  \<open>0 < r \<le> chunkSize\<close>.
\<close>

theorem uploadLarge_offsets:
  assumes start: "UploadSessionStart fc [] \<lparr>Close = False\<rparr> [] = Inr sid"
    and ok: "\<forall>h a b. UploadSessionAppendV2 fc h a b = None"
    and len: "length data < 2 ^ 64"
  shows "snd (uploadLarge fc ci (NewReader data)) =
           CallUploadSessionStart \<lparr>Close = False\<rparr> [] #
           map (\<lambda>k. append_call sid (of_nat (k * chunkSize)) (chunk_at k data))
             [0..<chunk_count (length data)] @
           [CallUploadSessionFinish
              (NewUploadSessionFinishArg (NewUploadSessionCursor sid (of_nat (length data))) ci)]
       \<and> concat (map (\<lambda>k. chunk_at k data) [0..<chunk_count (length data)]) = data
       \<and> (\<forall>k<chunk_count (length data).
             unat (of_nat (k * chunkSize) :: 64 word) = k * chunkSize
           \<and> k * chunkSize = sum_list (map (\<lambda>m. length (chunk_at m data)) [0..<k]))
       \<and> unat (of_nat (length data) :: 64 word) = length data
       \<and> length data = sum_list (map (\<lambda>m. length (chunk_at m data)) [0..<chunk_count (length data)])
       \<and> chunk_count (length data) = (length data + 4194304 - 1) div 4194304
       \<and> chunkSize = 4194304"
proof -
  have a: "snd (uploadLarge fc ci (NewReader data)) =
           CallUploadSessionStart \<lparr>Close = False\<rparr> [] #
           map (\<lambda>k. append_call sid (of_nat (k * chunkSize)) (chunk_at k data))
             [0..<chunk_count (length data)] @
           [CallUploadSessionFinish
              (NewUploadSessionFinishArg (NewUploadSessionCursor sid (of_nat (length data))) ci)]"
    by (simp add: uploadLarge_all_ok [OF start ok])
  have b: "unat (of_nat (k * chunkSize) :: 64 word) = k * chunkSize
           \<and> k * chunkSize = sum_list (map (\<lambda>m. length (chunk_at m data)) [0..<k])"
    if "k < chunk_count (length data)" for k
  proof -
    from that have "k * chunkSize < length data"
      by (simp add: chunk_count_less_iff)
    with len have "k * chunkSize < 2 ^ 64" by simp
    then have "unat (of_nat (k * chunkSize) :: 64 word) = k * chunkSize"
      by (rule unat_offset)
    moreover have "k * chunkSize = sum_list (map (\<lambda>m. length (chunk_at m data)) [0..<k])"
      using sum_chunks_before [OF that] by (rule sym)
    ultimately show ?thesis by (rule conjI)
  qed
  have c: "unat (of_nat (length data) :: 64 word) = length data"
    using len by (rule unat_offset)
  have d: "chunkSize = 4194304"
    by (simp add: chunkSize_def)
  have e: "chunk_count (length data) = (length data + 4194304 - 1) div 4194304"
    by (simp add: chunk_count_def chunkSize_def)
  from b have b': "\<forall>k<chunk_count (length data).
             unat (of_nat (k * chunkSize) :: 64 word) = k * chunkSize
           \<and> k * chunkSize = sum_list (map (\<lambda>m. length (chunk_at m data)) [0..<k])"
    by blast
  show ?thesis
    by (intro conjI)
       (rule a, rule concat_all_chunks, rule b', rule c, rule sum_all_chunks [symmetric],
        rule e, rule d)
qed

theorem uploadLarge_offsets_witness:
  "snd (uploadLarge
      \<lparr>UploadSessionStart = (\<lambda>h a b. Inr ''sid''), UploadSessionAppendV2 = (\<lambda>h a b. None),
       UploadSessionFinish = (\<lambda>h a. Inl ''no reply''), Upload_direct = (\<lambda>h a b. Inl ''no reply'')\<rparr>
      (NewCommitInfo ''/a.txt'') (NewReader ''hello'')) =
    [CallUploadSessionStart \<lparr>Close = False\<rparr> [],
     CallUploadSessionAppendV2
       \<lparr>Cursor = \<lparr>SessionId = ''sid'', Offset = 0\<rparr>, Append_Close = False\<rparr> ''hello'',
     CallUploadSessionFinish
       \<lparr>Finish_Cursor = \<lparr>SessionId = ''sid'', Offset = 5\<rparr>, Commit = NewCommitInfo ''/a.txt''\<rparr>]"
proof -
  let ?fc = "\<lparr>UploadSessionStart = (\<lambda>h a b. Inr ''sid''), UploadSessionAppendV2 = (\<lambda>h a b. None),
       UploadSessionFinish = (\<lambda>h a. Inl ''no reply''), Upload_direct = (\<lambda>h a b. Inl ''no reply'')\<rparr>"
  have a: "UploadSessionStart ?fc [] \<lparr>Close = False\<rparr> [] = Inr ''sid''" by simp
  have b: "\<forall>h a b. UploadSessionAppendV2 ?fc h a b = None" by simp
  have c: "length ''hello'' < (2::nat) ^ 64" by simp
  have n: "[0..<chunk_count (length ''hello'')] = [0]"
    by (simp add: chunk_count_def chunkSize_def)
  have k: "chunk_at 0 ''hello'' = ''hello''"
    by (simp add: chunk_at_def chunkSize_def)
  from uploadLarge_offsets [OF a b c, of "NewCommitInfo ''/a.txt''"]
  show ?thesis
    by (simp add: n k append_call_def NewUploadSessionAppendArg_def NewUploadSessionCursor_def
        NewUploadSessionFinishArg_def)
qed

lemma loop_trace:
  "\<exists>ext. snd (uploadLarge_loop fc sid rd off tr) = tr @ ext \<and> (\<forall>c \<in> set ext. is_append c) \<and>
     (\<forall>pre a b post e. ext = pre @ CallUploadSessionAppendV2 a b # post \<longrightarrow>
        UploadSessionAppendV2 fc (tr @ pre) a b = Some e \<longrightarrow>
        post = [] \<and> fst (uploadLarge_loop fc sid rd off tr) = Inl (''failed to append chunk: '' @ e))"
proof (induction "length (s rd) - i rd" arbitrary: rd off tr rule: less_induct)
  case less
  show ?case
  proof (cases "i rd < length (s rd)")
    case False
    then have "uploadLarge_loop fc sid rd off tr = (Inr off, tr)"
      by (simp add: loop_eof)
    then show ?thesis by simp
  next
    case True
    let ?c = "next_chunk rd"
    let ?arg = "NewUploadSessionAppendArg (NewUploadSessionCursor sid off)"
    show ?thesis
    proof (cases "UploadSessionAppendV2 fc tr ?arg ?c")
      case (Some e0)
      have r: "uploadLarge_loop fc sid rd off tr =
           (Inl (''failed to append chunk: '' @ e0), tr @ [append_call sid off ?c])"
        using True Some by (rule loop_read_fail)
      show ?thesis
        unfolding r using Some
        by (intro exI [of _ "[append_call sid off ?c]"])
           (auto simp: append_call_def Cons_eq_append_conv)
    next
      case None
      let ?rd = "rd\<lparr>i := i rd + length ?c\<rparr>"
      let ?off = "off + of_nat (length ?c)"
      let ?tr = "tr @ [append_call sid off ?c]"
      have r: "uploadLarge_loop fc sid rd off tr = uploadLarge_loop fc sid ?rd ?off ?tr"
        using True None by (rule loop_read_ok)
      have "length (s rd) - (i rd + length ?c) < length (s rd) - i rd"
        using True next_chunk_nonempty [OF True] by linarith
      then have "length (s ?rd) - i ?rd < length (s rd) - i rd"
        by simp
      from less [OF this, of ?off ?tr] obtain ext where
        e1: "snd (uploadLarge_loop fc sid ?rd ?off ?tr) = ?tr @ ext"
        and e2: "\<forall>c \<in> set ext. is_append c"
        and e3: "\<forall>pre a b post e. ext = pre @ CallUploadSessionAppendV2 a b # post \<longrightarrow>
            UploadSessionAppendV2 fc (?tr @ pre) a b = Some e \<longrightarrow>
            post = [] \<and> fst (uploadLarge_loop fc sid ?rd ?off ?tr) = Inl (''failed to append chunk: '' @ e)"
        by blast
      have "\<forall>pre a b post e. append_call sid off ?c # ext = pre @ CallUploadSessionAppendV2 a b # post \<longrightarrow>
            UploadSessionAppendV2 fc (tr @ pre) a b = Some e \<longrightarrow>
            post = [] \<and> fst (uploadLarge_loop fc sid ?rd ?off ?tr) = Inl (''failed to append chunk: '' @ e)"
      proof (intro allI impI)
        fix pre a b post e
        assume d: "append_call sid off ?c # ext = pre @ CallUploadSessionAppendV2 a b # post"
          and f: "UploadSessionAppendV2 fc (tr @ pre) a b = Some e"
        show "post = [] \<and> fst (uploadLarge_loop fc sid ?rd ?off ?tr) = Inl (''failed to append chunk: '' @ e)"
        proof (cases pre)
          case Nil
          with d have "a = ?arg" and "b = ?c"
            by (simp_all add: append_call_def)
          with f Nil None show ?thesis by simp
        next
          case (Cons x pre')
          with d have "x = append_call sid off ?c"
            and "ext = pre' @ CallUploadSessionAppendV2 a b # post"
            by simp_all
          with f Cons e3 show ?thesis by simp
        qed
      qed
      with e1 e2 show ?thesis
        unfolding r
        by (intro exI [of _ "append_call sid off ?c # ext"]) (simp add: append_call_def)
    qed
  qed
qed

lemma uploadLarge_start_failed:
  assumes "UploadSessionStart fc [] \<lparr>Close = False\<rparr> [] = Inl err"
  shows "uploadLarge fc ci rd =
      (Inl (''failed to start upload session: '' @ err), [CallUploadSessionStart \<lparr>Close = False\<rparr> []])"
  using assms by (simp add: uploadLarge_def NewUploadSessionStartArg_def Let_def)

lemma uploadLarge_loop_failed:
  assumes "UploadSessionStart fc [] \<lparr>Close = False\<rparr> [] = Inr sid"
    and "uploadLarge_loop fc sid rd 0 [CallUploadSessionStart \<lparr>Close = False\<rparr> []] = (Inl err, tr)"
  shows "uploadLarge fc ci rd = (Inl err, tr)"
  using assms by (simp add: uploadLarge_def NewUploadSessionStartArg_def Let_def)

lemma uploadLarge_loop_done:
  assumes "UploadSessionStart fc [] \<lparr>Close = False\<rparr> [] = Inr sid"
    and "uploadLarge_loop fc sid rd 0 [CallUploadSessionStart \<lparr>Close = False\<rparr> []] = (Inr off, tr)"
  shows "uploadLarge fc ci rd =
      (UploadSessionFinish fc tr (NewUploadSessionFinishArg (NewUploadSessionCursor sid off) ci),
       tr @ [CallUploadSessionFinish (NewUploadSessionFinishArg (NewUploadSessionCursor sid off) ci)])"
  using assms by (simp add: uploadLarge_def NewUploadSessionStartArg_def Let_def)

lemma uploadLarge_shape:
  "\<exists>ext fin. snd (uploadLarge fc ci rd) = CallUploadSessionStart \<lparr>Close = False\<rparr> [] # ext @ fin
     \<and> (\<forall>c \<in> set ext. is_append c)
     \<and> (fin = [] \<or> (\<exists>cur. fin = [CallUploadSessionFinish (NewUploadSessionFinishArg cur ci)]))"
proof (cases "UploadSessionStart fc [] \<lparr>Close = False\<rparr> []")
  case (Inl err)
  show ?thesis
    unfolding uploadLarge_start_failed [OF Inl]
    by (intro exI [of _ "[]"]) simp
next
  case (Inr sid)
  let ?t0 = "[CallUploadSessionStart \<lparr>Close = False\<rparr> []]"
  from loop_trace [of fc sid rd 0 ?t0] obtain ext where
    e1: "snd (uploadLarge_loop fc sid rd 0 ?t0) = ?t0 @ ext" and e2: "\<forall>c \<in> set ext. is_append c"
    by blast
  show ?thesis
  proof (cases "fst (uploadLarge_loop fc sid rd 0 ?t0)")
    case (Inl err)
    with e1 have "uploadLarge_loop fc sid rd 0 ?t0 = (Inl err, ?t0 @ ext)"
      by (simp add: prod_eq_iff)
    from uploadLarge_loop_failed [OF Inr this] e2 show ?thesis
      by (intro exI [of _ ext] exI [of _ "[]"]) simp
  next
    case (Inr off)
    with e1 have "uploadLarge_loop fc sid rd 0 ?t0 = (Inr off, ?t0 @ ext)"
      by (simp add: prod_eq_iff)
    from uploadLarge_loop_done [OF \<open>UploadSessionStart fc [] \<lparr>Close = False\<rparr> [] = Inr sid\<close> this] e2
    show ?thesis
      by (intro exI [of _ ext]
            exI [of _ "[CallUploadSessionFinish
              (NewUploadSessionFinishArg (NewUploadSessionCursor sid off) ci)]"]) auto
  qed
qed

text \<open>
  Claim C7.  Whenever the provider answers an append call of a chunked upload with an
  error, that call is the last call of the upload (no further append, no retry, no finish)
  and the upload returns the error, wrapped, to its caller.  This holds for every client,
  every commit information and every reader state.
\<close>

theorem append_failure_aborts:
  assumes tr: "snd (uploadLarge fc ci rd) = pre @ CallUploadSessionAppendV2 a b # post"
    and fail: "UploadSessionAppendV2 fc pre a b = Some e"
  shows "post = []
       \<and> fst (uploadLarge fc ci rd) = Inl (''failed to append chunk: '' @ e)
       \<and> (\<forall>f. CallUploadSessionFinish f \<notin> set (snd (uploadLarge fc ci rd)))"
proof (cases "UploadSessionStart fc [] \<lparr>Close = False\<rparr> []")
  case (Inl err)
  with tr show ?thesis
    by (simp add: uploadLarge_start_failed Cons_eq_append_conv)
next
  case (Inr sid)
  let ?A = "CallUploadSessionAppendV2 a b"
  let ?t0 = "[CallUploadSessionStart \<lparr>Close = False\<rparr> []]"
  let ?loop = "uploadLarge_loop fc sid rd 0 ?t0"
  from loop_trace [of fc sid rd 0 ?t0] obtain ext where
    e1: "snd ?loop = ?t0 @ ext" and e2: "\<forall>c \<in> set ext. is_append c"
    and e3: "\<forall>pre a b post e. ext = pre @ CallUploadSessionAppendV2 a b # post \<longrightarrow>
        UploadSessionAppendV2 fc (?t0 @ pre) a b = Some e \<longrightarrow>
        post = [] \<and> fst ?loop = Inl (''failed to append chunk: '' @ e)"
    by blast
  show ?thesis
  proof (cases "fst ?loop")
    case (Inl err)
    with e1 have l: "?loop = (Inl err, ?t0 @ ext)"
      by (simp add: prod_eq_iff)
    note u = uploadLarge_loop_failed [OF Inr l, of ci]
    from tr u have "CallUploadSessionStart \<lparr>Close = False\<rparr> [] # ext = pre @ ?A # post"
      by simp
    then obtain pre' where p: "pre = CallUploadSessionStart \<lparr>Close = False\<rparr> [] # pre'"
      and x: "ext = pre' @ ?A # post"
      by (cases pre) auto
    from e3 x fail p have "post = [] \<and> fst ?loop = Inl (''failed to append chunk: '' @ e)"
      by simp
    moreover have "\<forall>f. CallUploadSessionFinish f \<notin> set (snd (uploadLarge fc ci rd))"
      using e2 u by auto
    ultimately show ?thesis
      using u l by simp
  next
    case (Inr off)
    with e1 have l: "?loop = (Inr off, ?t0 @ ext)"
      by (simp add: prod_eq_iff)
    let ?F = "CallUploadSessionFinish (NewUploadSessionFinishArg (NewUploadSessionCursor sid off) ci)"
    note u = uploadLarge_loop_done
      [OF \<open>UploadSessionStart fc [] \<lparr>Close = False\<rparr> [] = Inr sid\<close> l, of ci]
    from tr u have q: "CallUploadSessionStart \<lparr>Close = False\<rparr> [] # ext @ [?F] = pre @ ?A # post"
      by simp
    then obtain pre' where p: "pre = CallUploadSessionStart \<lparr>Close = False\<rparr> [] # pre'"
      and x: "ext @ [?F] = pre' @ ?A # post"
      by (cases pre) auto
    from x have "post \<noteq> []" by auto
    then obtain post' z where pz: "post = post' @ [z]"
      by (metis rev_exhaust)
    with x have "ext = pre' @ ?A # post'"
      by simp
    with e3 fail p have "fst ?loop = Inl (''failed to append chunk: '' @ e)"
      by simp
    with Inr show ?thesis by simp
  qed
qed

theorem append_failure_aborts_witness:
  "uploadLarge
      \<lparr>UploadSessionStart = (\<lambda>h a b. Inr ''sid''),
       UploadSessionAppendV2 = (\<lambda>h a b. Some ''too_many_write_operations''),
       UploadSessionFinish = (\<lambda>h a. Inl ''no reply''), Upload_direct = (\<lambda>h a b. Inl ''no reply'')\<rparr>
      (NewCommitInfo ''/a.txt'') (NewReader ''hello'') =
    (Inl ''failed to append chunk: too_many_write_operations'',
     [CallUploadSessionStart \<lparr>Close = False\<rparr> [],
      CallUploadSessionAppendV2
        \<lparr>Cursor = \<lparr>SessionId = ''sid'', Offset = 0\<rparr>, Append_Close = False\<rparr> ''hello''])"
proof -
  let ?fc = "\<lparr>UploadSessionStart = (\<lambda>h a b. Inr ''sid''),
       UploadSessionAppendV2 = (\<lambda>h a b. Some ''too_many_write_operations''),
       UploadSessionFinish = (\<lambda>h a. Inl ''no reply''), Upload_direct = (\<lambda>h a b. Inl ''no reply'')\<rparr>"
  let ?rd = "NewReader ''hello''"
  let ?t0 = "[CallUploadSessionStart \<lparr>Close = False\<rparr> []]"
  let ?arg = "\<lparr>Cursor = \<lparr>SessionId = ''sid'', Offset = 0\<rparr>, Append_Close = False\<rparr>"
  have n: "next_chunk ?rd = ''hello''"
    by (simp add: next_chunk_def NewReader_def chunkSize_def)
  have "uploadLarge_loop ?fc ''sid'' ?rd 0 ?t0 =
      (Inl (''failed to append chunk: '' @ ''too_many_write_operations''),
       ?t0 @ [append_call ''sid'' 0 (next_chunk ?rd)])"
    by (rule loop_read_fail) (simp_all add: NewReader_def)
  then have "snd (uploadLarge ?fc (NewCommitInfo ''/a.txt'') ?rd) =
      ?t0 @ CallUploadSessionAppendV2 ?arg ''hello'' # []"
    by (simp add: uploadLarge_def NewUploadSessionStartArg_def Let_def n append_call_def
        NewUploadSessionAppendArg_def NewUploadSessionCursor_def)
  moreover have "UploadSessionAppendV2 ?fc ?t0 ?arg ''hello'' = Some ''too_many_write_operations''"
    by simp
  ultimately have "fst (uploadLarge ?fc (NewCommitInfo ''/a.txt'') ?rd) =
      Inl (''failed to append chunk: '' @ ''too_many_write_operations'')"
    using append_failure_aborts [of ?fc "NewCommitInfo ''/a.txt''" ?rd ?t0 ?arg "''hello''" "[]"
        "''too_many_write_operations''"]
    by blast
  with \<open>snd (uploadLarge ?fc (NewCommitInfo ''/a.txt'') ?rd) =
      ?t0 @ CallUploadSessionAppendV2 ?arg ''hello'' # []\<close>
  show ?thesis by (simp add: prod_eq_iff)
qed

section \<open>Upload: payload, commit information and the choice of path\<close>

lemma Upload_large:
  assumes "length (uploadData content) > 150 * 1024 * 1024"
  shows "Upload fc now path content mode =
     uploadLarge fc (uploadCommitInfo now path mode) (NewReader (uploadData content))"
  using assms by (simp add: Upload_def Let_def)

lemma Upload_small:
  assumes "length (uploadData content) \<le> 150 * 1024 * 1024"
  shows "Upload fc now path content mode =
     (Upload_direct fc [] (direct_arg now path mode) (uploadData content),
      [CallUpload (direct_arg now path mode) (uploadData content)])"
  using assms
  by (simp add: Upload_def Let_def NewUploadArg_def remaining_def NewReader_def direct_arg_def)

lemma direct_arg_commit: "CommitInfo.truncate (direct_arg now path mode) = uploadCommitInfo now path mode"
  by (simp add: direct_arg_def CommitInfo.truncate_def uploadCommitInfo_def NewCommitInfo_def Let_def)

lemma uploadLarge_has_start:
  "CallUploadSessionStart \<lparr>Close = False\<rparr> [] \<in> set (snd (uploadLarge fc ci rd))"
  using uploadLarge_shape [of fc ci rd] by auto

text \<open>
  Claim C6.  The payload is what \<open>uploadData\<close> makes of the content.  \<^verbatim>\<open>Upload\<close>
  takes the chunked path (it is \<^verbatim>\<open>uploadLarge\<close>, whose first call opens a session)
  exactly when the payload is longer than 150 MiB.  Otherwise it makes one direct upload
  call and no other call, with the payload as body and an argument that carries the same
  path, write mode, autorename flag and client-modified time as the commit information.
\<close>

theorem Upload_path_choice:
  "(length (uploadData content) > 150 * 1024 * 1024 \<longrightarrow>
      Upload fc now path content mode =
        uploadLarge fc (uploadCommitInfo now path mode) (NewReader (uploadData content)))
   \<and> (length (uploadData content) \<le> 150 * 1024 * 1024 \<longrightarrow>
      (\<exists>arg. Upload fc now path content mode =
               (Upload_direct fc [] arg (uploadData content), [CallUpload arg (uploadData content)])
           \<and> Path arg = path
           \<and> Mode arg = Mode (uploadCommitInfo now path mode)
           \<and> Autorename arg = Autorename (uploadCommitInfo now path mode)
           \<and> ClientModified arg = ClientModified (uploadCommitInfo now path mode)
           \<and> CommitInfo.truncate arg = uploadCommitInfo now path mode))
   \<and> ((\<exists>a b. CallUploadSessionStart a b \<in> set (snd (Upload fc now path content mode)))
        \<longleftrightarrow> length (uploadData content) > 150 * 1024 * 1024)"
proof (cases "length (uploadData content) > 150 * 1024 * 1024")
  case True
  note u = Upload_large [OF True, of fc now path mode]
  have "\<exists>a b. CallUploadSessionStart a b \<in> set (snd (Upload fc now path content mode))"
    unfolding u using uploadLarge_has_start by blast
  with True u show ?thesis by simp
next
  case False
  then have le: "length (uploadData content) \<le> 150 * 1024 * 1024" by simp
  note u = Upload_small [OF le, of fc now path mode]
  have "\<not> (\<exists>a b. CallUploadSessionStart a b \<in> set (snd (Upload fc now path content mode)))"
    unfolding u by simp
  moreover have "\<exists>arg. Upload fc now path content mode =
               (Upload_direct fc [] arg (uploadData content), [CallUpload arg (uploadData content)])
           \<and> Path arg = path
           \<and> Mode arg = Mode (uploadCommitInfo now path mode)
           \<and> Autorename arg = Autorename (uploadCommitInfo now path mode)
           \<and> ClientModified arg = ClientModified (uploadCommitInfo now path mode)
           \<and> CommitInfo.truncate arg = uploadCommitInfo now path mode"
    using u direct_arg_commit [of now path mode]
    by (intro exI [of _ "direct_arg now path mode"]) (simp add: direct_arg_def)
  ultimately show ?thesis using False by blast
qed

theorem Upload_path_choice_witness:
  "(\<exists>a b. CallUploadSessionStart a b \<in> set (snd (Upload
         \<lparr>UploadSessionStart = (\<lambda>h a b. Inr ''sid''), UploadSessionAppendV2 = (\<lambda>h a b. None),
          UploadSessionFinish = (\<lambda>h a. Inl ''no reply''),
          Upload_direct = (\<lambda>h a b. Inl ''no reply'')\<rparr>
         7 ''/a.txt'' (CHR 0x0A # replicate 157286400 CHR ''a'') ''add'')))
   \<and> \<not> (\<exists>a b. CallUploadSessionStart a b \<in> set (snd (Upload
         \<lparr>UploadSessionStart = (\<lambda>h a b. Inr ''sid''), UploadSessionAppendV2 = (\<lambda>h a b. None),
          UploadSessionFinish = (\<lambda>h a. Inl ''no reply''),
          Upload_direct = (\<lambda>h a b. Inl ''no reply'')\<rparr>
         7 ''/a.txt'' (''    '' @ replicate 157286396 CHR ''a'') ''add'')))"
proof -
  let ?fc = "\<lparr>UploadSessionStart = (\<lambda>h a b. Inr ''sid''), UploadSessionAppendV2 = (\<lambda>h a b. None),
      UploadSessionFinish = (\<lambda>h a. Inl ''no reply''),
      Upload_direct = (\<lambda>h a b. Inl ''no reply'')\<rparr>"
  let ?big = "CHR 0x0A # replicate 157286400 CHR ''a''"
  let ?small = "''    '' @ replicate 157286396 CHR ''a''"
  have "uploadData ?big = ?big"
    by (simp add: uploadData_def)
  then have b: "length (uploadData ?big) > 150 * 1024 * 1024"
    by simp
  have "DecodeString ?small = Inl CorruptInputError"
    by (simp add: DecodeString_def decodeMap_def)
  then have "uploadData ?small = ?small"
    by (simp add: uploadData_def isBase64_def)
  then have s: "\<not> length (uploadData ?small) > 150 * 1024 * 1024"
    by simp
  from b Upload_path_choice [of ?big ?fc 7 "''/a.txt''" "''add''"]
  have "\<exists>a b. CallUploadSessionStart a b \<in> set (snd (Upload ?fc 7 ''/a.txt'' ?big ''add''))"
    by blast
  moreover from s Upload_path_choice [of ?small ?fc 7 "''/a.txt''" "''add''"]
  have "\<not> (\<exists>a b. CallUploadSessionStart a b \<in> set (snd (Upload ?fc 7 ''/a.txt'' ?small ''add'')))"
    by blast
  ultimately show ?thesis by (rule conjI)
qed

lemma isBase64_iff: "isBase64 content \<longleftrightarrow> (\<exists>decoded. DecodeString content = Inr decoded)"
  by (simp add: isBase64_def split: sum.splits)

text \<open>
  Claim C9.  A content string with a line feed, or one that is not valid standard base64,
  is uploaded as it is; one without a line feed that is valid base64 is uploaded decoded.
  The payload is the body of the direct upload call, or the source of the chunked upload.
  Consequently there are texts without a line feed that are valid base64 and are therefore
  not uploaded as they are: \<^verbatim>\<open>test\<close> is uploaded as three bytes.
\<close>

theorem uploadData_cases:
  "(CHR 0x0A \<in> set content \<or> \<not> isBase64 content \<longrightarrow> uploadData content = content)
   \<and> (CHR 0x0A \<notin> set content \<and> isBase64 content \<longrightarrow>
        DecodeString content = Inr (uploadData content))
   \<and> (isBase64 content \<longleftrightarrow> (\<exists>decoded. DecodeString content = Inr decoded))
   \<and> (length (uploadData content) \<le> 150 * 1024 * 1024 \<longrightarrow>
        (\<exists>arg. snd (Upload fc now path content mode) = [CallUpload arg (uploadData content)]))
   \<and> (length (uploadData content) > 150 * 1024 * 1024 \<longrightarrow>
        Upload fc now path content mode =
          uploadLarge fc (uploadCommitInfo now path mode) (NewReader (uploadData content)))
   \<and> (\<exists>text. CHR 0x0A \<notin> set text \<and> isBase64 text \<and> uploadData text \<noteq> text)"
proof -
  have a: "CHR 0x0A \<in> set content \<or> \<not> isBase64 content \<longrightarrow> uploadData content = content"
    by (auto simp: uploadData_def)
  have b: "CHR 0x0A \<notin> set content \<and> isBase64 content \<longrightarrow>
        DecodeString content = Inr (uploadData content)"
    by (auto simp: uploadData_def isBase64_def split: sum.splits)
  have c: "length (uploadData content) \<le> 150 * 1024 * 1024 \<longrightarrow>
        (\<exists>arg. snd (Upload fc now path content mode) = [CallUpload arg (uploadData content)])"
    using Upload_small [of content fc now path mode] by auto
  have d: "length (uploadData content) > 150 * 1024 * 1024 \<longrightarrow>
        Upload fc now path content mode =
          uploadLarge fc (uploadCommitInfo now path mode) (NewReader (uploadData content))"
    using Upload_large [of content fc now path mode] by blast
  have t: "DecodeString ''test'' = Inr [CHR 0xB5, CHR 0xEB, CHR 0x2D]"
    by code_simp
  have "CHR 0x0A \<notin> set ''test'' \<and> isBase64 ''test'' \<and> uploadData ''test'' \<noteq> ''test''"
    by (simp add: uploadData_def isBase64_def t)
  then have e: "\<exists>text. CHR 0x0A \<notin> set text \<and> isBase64 text \<and> uploadData text \<noteq> text"
    by blast
  show ?thesis
    by (intro conjI) (rule a, rule b, rule isBase64_iff, rule c, rule d, rule e)
qed

theorem uploadData_cases_witness:
  "uploadData ''dGVzdA=='' = ''test''
   \<and> uploadData ''test'' = [CHR 0xB5, CHR 0xEB, CHR 0x2D]
   \<and> uploadData ''hello world'' = ''hello world''
   \<and> uploadData [CHR ''d'', CHR ''G'', CHR ''V'', CHR ''z'', CHR 0x0A, CHR ''d'', CHR ''A'', CHR ''='', CHR ''='']
      = [CHR ''d'', CHR ''G'', CHR ''V'', CHR ''z'', CHR 0x0A, CHR ''d'', CHR ''A'', CHR ''='', CHR ''='']"
proof -
  let ?nl = "[CHR ''d'', CHR ''G'', CHR ''V'', CHR ''z'', CHR 0x0A, CHR ''d'', CHR ''A'', CHR ''='', CHR ''='']"
  have d1: "DecodeString ''dGVzdA=='' = Inr ''test''" by code_simp
  have d2: "DecodeString ''test'' = Inr [CHR 0xB5, CHR 0xEB, CHR 0x2D]" by code_simp
  have d3: "DecodeString ''hello world'' = Inl CorruptInputError" by code_simp
  have n1: "CHR 0x0A \<notin> set ''dGVzdA=='' \<and> isBase64 ''dGVzdA==''"
    by (simp add: isBase64_def d1)
  have n2: "CHR 0x0A \<notin> set ''test'' \<and> isBase64 ''test''"
    by (simp add: isBase64_def d2)
  have n3: "CHR 0x0A \<in> set ''hello world'' \<or> \<not> isBase64 ''hello world''"
    by (simp add: isBase64_def d3)
  have n4: "CHR 0x0A \<in> set ?nl \<or> \<not> isBase64 ?nl"
    by simp
  from n1 uploadData_cases [of "''dGVzdA==''"] d1 have "uploadData ''dGVzdA=='' = ''test''"
    by simp
  moreover from n2 uploadData_cases [of "''test''"] d2
  have "uploadData ''test'' = [CHR 0xB5, CHR 0xEB, CHR 0x2D]"
    by simp
  moreover from n3 uploadData_cases [of "''hello world''"]
  have "uploadData ''hello world'' = ''hello world''"
    by blast
  moreover from n4 uploadData_cases [of ?nl] have "uploadData ?nl = ?nl"
    by blast
  ultimately show ?thesis by blast
qed

lemma is_append_no_commit: "is_append c \<Longrightarrow> call_commit c = None"
  by (cases c) simp_all

lemma uploadLarge_commits:
  assumes "c \<in> set (snd (uploadLarge fc ci rd))" and "call_commit c = Some ci'"
  shows "ci' = ci"
proof -
  from uploadLarge_shape [of fc ci rd] obtain ext fin where
    t: "snd (uploadLarge fc ci rd) = CallUploadSessionStart \<lparr>Close = False\<rparr> [] # ext @ fin"
    and e: "\<forall>c \<in> set ext. is_append c"
    and f: "fin = [] \<or> (\<exists>cur. fin = [CallUploadSessionFinish (NewUploadSessionFinishArg cur ci)])"
    by blast
  from assms(1) t have "c = CallUploadSessionStart \<lparr>Close = False\<rparr> [] \<or> c \<in> set ext \<or> c \<in> set fin"
    by auto
  then show ?thesis
  proof (elim disjE)
    assume "c = CallUploadSessionStart \<lparr>Close = False\<rparr> []"
    with assms(2) show ?thesis by simp
  next
    assume "c \<in> set ext"
    with e have "call_commit c = None" by (simp add: is_append_no_commit)
    with assms(2) show ?thesis by simp
  next
    assume "c \<in> set fin"
    with f obtain cur where "c = CallUploadSessionFinish (NewUploadSessionFinishArg cur ci)"
      by auto
    with assms(2) show ?thesis by (simp add: NewUploadSessionFinishArg_def)
  qed
qed

lemma Upload_commits:
  assumes "c \<in> set (snd (Upload fc now path content mode))" and "call_commit c = Some ci"
  shows "ci = uploadCommitInfo now path mode"
proof (cases "length (uploadData content) > 150 * 1024 * 1024")
  case True
  from assms show ?thesis
    unfolding Upload_large [OF True] by (rule uploadLarge_commits)
next
  case False
  then have le: "length (uploadData content) \<le> 150 * 1024 * 1024" by simp
  from assms show ?thesis
    unfolding Upload_small [OF le] by (simp add: direct_arg_commit)
qed

lemma upload_result_cases:
  "(case u of (Inl err, tr) \<Rightarrow> (Inl err, tr, c) | (Inr metadata, tr) \<Rightarrow> (Inr metadata, tr, c))
     = (fst u, snd u, c)"
  by (cases u; cases "fst u") auto

lemma HandleUpload_trace:
  "fst (snd (HandleUpload env cfg (Inr args))) = [] \<or>
   (\<exists>client. fst (snd (HandleUpload env cfg (Inr args))) =
        snd (Upload client (clock env) (args_Path args) (args_Content args)
               (if args_Mode args = [] then ''add'' else args_Mode args)))"
proof (cases "NewClient env cfg")
  case (Pair res cfg')
  show ?thesis
  proof (cases res)
    case (Inl err)
    with Pair show ?thesis
      by (simp add: HandleUpload_def Let_def)
  next
    case (Inr client)
    with Pair show ?thesis
      by (auto simp: HandleUpload_def Let_def upload_result_cases)
  qed
qed

text \<open>
  Claim C10.  The commit information of an upload has autorename set, the current time as
  client-modified time, and the write mode \<^verbatim>\<open>overwrite\<close> exactly when the mode string
  is \<^verbatim>\<open>overwrite\<close>; every other mode string gives \<^verbatim>\<open>add\<close>.  Every call of
  \<^verbatim>\<open>Upload\<close> that carries commit information carries this one.  The handler passes
  \<^verbatim>\<open>add\<close> for an empty mode, so that through the handler too the write mode is
  \<^verbatim>\<open>overwrite\<close> exactly when the caller's mode is \<^verbatim>\<open>overwrite\<close>.
\<close>

theorem Upload_commit_info:
  "Autorename (uploadCommitInfo now path mode)
   \<and> ClientModified (uploadCommitInfo now path mode) = Some now
   \<and> Path (uploadCommitInfo now path mode) = path
   \<and> (Mode (uploadCommitInfo now path mode) = Tagged ''overwrite'' \<longleftrightarrow> mode = ''overwrite'')
   \<and> (mode \<noteq> ''overwrite'' \<longrightarrow> Mode (uploadCommitInfo now path mode) = Tagged ''add'')
   \<and> (\<forall>c \<in> set (snd (Upload fc now path content mode)). \<forall>ci.
         call_commit c = Some ci \<longrightarrow> ci = uploadCommitInfo now path mode)
   \<and> (\<forall>c \<in> set (fst (snd (HandleUpload env cfg (Inr args)))). \<forall>ci.
         call_commit c = Some ci \<longrightarrow>
           ci = uploadCommitInfo (clock env) (args_Path args)
                  (if args_Mode args = [] then ''add'' else args_Mode args)
         \<and> Autorename ci \<and> ClientModified ci = Some (clock env)
         \<and> (Mode ci = Tagged ''overwrite'' \<longleftrightarrow> args_Mode args = ''overwrite'')
         \<and> (args_Mode args \<noteq> ''overwrite'' \<longrightarrow> Mode ci = Tagged ''add''))"
proof -
  have f: "Autorename (uploadCommitInfo t p m) \<and> ClientModified (uploadCommitInfo t p m) = Some t
      \<and> Path (uploadCommitInfo t p m) = p
      \<and> (Mode (uploadCommitInfo t p m) = Tagged ''overwrite'' \<longleftrightarrow> m = ''overwrite'')
      \<and> (m \<noteq> ''overwrite'' \<longrightarrow> Mode (uploadCommitInfo t p m) = Tagged ''add'')" for t p m
    by (simp add: uploadCommitInfo_def NewCommitInfo_def Let_def)
  have u: "\<forall>c \<in> set (snd (Upload fc now path content mode)). \<forall>ci.
         call_commit c = Some ci \<longrightarrow> ci = uploadCommitInfo now path mode"
    using Upload_commits by blast
  have h: "\<forall>c \<in> set (fst (snd (HandleUpload env cfg (Inr args)))). \<forall>ci.
         call_commit c = Some ci \<longrightarrow>
           ci = uploadCommitInfo (clock env) (args_Path args)
                  (if args_Mode args = [] then ''add'' else args_Mode args)
         \<and> Autorename ci \<and> ClientModified ci = Some (clock env)
         \<and> (Mode ci = Tagged ''overwrite'' \<longleftrightarrow> args_Mode args = ''overwrite'')
         \<and> (args_Mode args \<noteq> ''overwrite'' \<longrightarrow> Mode ci = Tagged ''add'')"
  proof (intro ballI allI impI)
    fix c ci
    assume c: "c \<in> set (fst (snd (HandleUpload env cfg (Inr args))))"
      and k: "call_commit c = Some ci"
    let ?m = "if args_Mode args = [] then ''add'' else args_Mode args"
    from HandleUpload_trace [of env cfg args] c obtain client where
      "fst (snd (HandleUpload env cfg (Inr args))) =
         snd (Upload client (clock env) (args_Path args) (args_Content args) ?m)"
      by auto
    with c k have e: "ci = uploadCommitInfo (clock env) (args_Path args) ?m"
      using Upload_commits by metis
    have "(?m = ''overwrite'') = (args_Mode args = ''overwrite'')"
      by auto
    with e f [of "clock env" "args_Path args" ?m]
    show "ci = uploadCommitInfo (clock env) (args_Path args) ?m
         \<and> Autorename ci \<and> ClientModified ci = Some (clock env)
         \<and> (Mode ci = Tagged ''overwrite'' \<longleftrightarrow> args_Mode args = ''overwrite'')
         \<and> (args_Mode args \<noteq> ''overwrite'' \<longrightarrow> Mode ci = Tagged ''add'')"
      by simp
  qed
  from f [of now path mode] u h show ?thesis
    by blast
qed

theorem Upload_commit_info_witness:
  "(\<exists>c ci. c \<in> set (fst (snd (HandleUpload
        \<lparr>clock = 7, tokenSource = (\<lambda>c r. Inl ''unused''), Save = (\<lambda>c. None),
         files_New = (\<lambda>token.
           \<lparr>UploadSessionStart = (\<lambda>h a b. Inr ''sid''), UploadSessionAppendV2 = (\<lambda>h a b. None),
            UploadSessionFinish = (\<lambda>h a. Inl ''no reply''),
            Upload_direct = (\<lambda>h a b. Inl ''no reply'')\<rparr>)\<rparr>
        \<lparr>ClientID = ''id'', ClientSecret = ''secret'', AccessToken = ''at'',
         RefreshToken = [], ExpiresAt = 0\<rparr>
        (Inr \<lparr>args_Path = ''/a.txt'', args_Content = ''hello world'', args_Mode = []\<rparr>))))
      \<and> call_commit c = Some ci \<and> Mode ci = Tagged ''add'' \<and> Autorename ci
      \<and> ClientModified ci = Some 7)
   \<and> Mode (uploadCommitInfo 7 ''/a.txt'' ''overwrite'') = Tagged ''overwrite''
   \<and> Mode (uploadCommitInfo 7 ''/a.txt'' ''update'') = Tagged ''add''"
proof -
  let ?fc = "\<lparr>UploadSessionStart = (\<lambda>h a b. Inr ''sid''), UploadSessionAppendV2 = (\<lambda>h a b. None),
            UploadSessionFinish = (\<lambda>h a. Inl ''no reply''),
            Upload_direct = (\<lambda>h a b. Inl ''no reply'')\<rparr>"
  let ?env = "\<lparr>clock = 7, tokenSource = (\<lambda>c r. Inl ''unused''), Save = (\<lambda>c. None),
         files_New = (\<lambda>token. ?fc)\<rparr>"
  let ?cfg = "\<lparr>ClientID = ''id'', ClientSecret = ''secret'', AccessToken = ''at'',
         RefreshToken = [], ExpiresAt = 0\<rparr>"
  let ?args = "\<lparr>args_Path = ''/a.txt'', args_Content = ''hello world'', args_Mode = []\<rparr>"
  let ?tr = "fst (snd (HandleUpload ?env ?cfg (Inr ?args)))"
  let ?c = "CallUpload (direct_arg 7 ''/a.txt'' ''add'') ''hello world''"
  have d: "DecodeString ''hello world'' = Inl CorruptInputError" by code_simp
  then have u: "uploadData ''hello world'' = ''hello world''"
    by (simp add: uploadData_def isBase64_def)
  have n: "NewClient ?env ?cfg = (Inr ?fc, ?cfg)"
    by (simp add: NewClient_def NeedsRefresh_def IsTokenValid_def IsZero_def)
  have "Upload ?fc 7 ''/a.txt'' ''hello world'' ''add'' =
      (Upload_direct ?fc [] (direct_arg 7 ''/a.txt'' ''add'') (uploadData ''hello world''),
       [CallUpload (direct_arg 7 ''/a.txt'' ''add'') (uploadData ''hello world'')])"
    by (rule Upload_small) (simp add: u)
  then have t: "?tr = [?c]"
    by (simp add: HandleUpload_def n u)
  then have m: "?c \<in> set ?tr" by simp
  have k: "call_commit ?c = Some (CommitInfo.truncate (direct_arg 7 ''/a.txt'' ''add''))"
    by simp
  from Upload_commit_info [of 7 "''/a.txt''" "''add''" ?fc "''hello world''" ?env ?cfg ?args] m k
  have "Mode (CommitInfo.truncate (direct_arg 7 ''/a.txt'' ''add'')) = Tagged ''add''
      \<and> Autorename (CommitInfo.truncate (direct_arg 7 ''/a.txt'' ''add''))
      \<and> ClientModified (CommitInfo.truncate (direct_arg 7 ''/a.txt'' ''add'')) = Some 7"
    by simp
  with m k have first: "\<exists>c ci. c \<in> set ?tr \<and> call_commit c = Some ci \<and> Mode ci = Tagged ''add''
      \<and> Autorename ci \<and> ClientModified ci = Some 7"
    by blast
  from Upload_commit_info [of 7 "''/a.txt''" "''overwrite''" ?fc "''hello world''" ?env ?cfg ?args]
  have second: "Mode (uploadCommitInfo 7 ''/a.txt'' ''overwrite'') = Tagged ''overwrite''"
    by simp
  from Upload_commit_info [of 7 "''/a.txt''" "''update''" ?fc "''hello world''" ?env ?cfg ?args]
  have third: "Mode (uploadCommitInfo 7 ''/a.txt'' ''update'') = Tagged ''add''"
    by simp
  from first second third show ?thesis by blast
qed

end
